theory Spec2Isabelle
  imports Complex_Main "HOL-Library.Product_Lexorder" "HOL-Library.Multiset" "HOL-Library.Sublist"
begin

section \<open>Data model: cells and frames\<close>

text \<open>
  The program keeps every rating in a pandas \<open>DataFrame\<close> that it reads from and writes to
  the file \<open>user_ratings.csv\<close>. A cell of such a frame is a missing value (\<open>NaN\<close>), an
  integer, a text or, after \<open>pd.to_datetime\<close>, a timestamp at midnight of a calendar day
  (year, month, day). A frame is its column labels and its rows in order; the row index
  is not modelled (both writers use \<open>index=False\<close>, the one concatenation uses
  \<open>ignore_index=True\<close>).
\<close>

type_synonym date = "nat \<times> nat \<times> nat"

datatype cell = NaN | IntV int | StrV string | TsV date

record DataFrame =
  columns :: "string list"
  rows :: "cell list list"

text \<open>
  What a call can end with instead of a value. \<open>NotModelled\<close> marks the inputs on which
  pandas does something this development does not describe (floating point and boolean
  columns, carriage returns as line ends, an implicit index column, renamed duplicate
  labels, date texts other than \<open>YYYY-MM-DD\<close>); the other constructors are the
  exceptions pandas raises.
\<close>

datatype pd_error = EmptyDataError | ParserError | KeyError | TypeError | NotModelled

section \<open>Decimal integers and dates as text\<close>

definition digit_char :: "nat \<Rightarrow> char" where
  "digit_char n = ''0123456789'' ! n"

function str_nat :: "nat \<Rightarrow> string" where
  "str_nat n = (if n < 10 then [digit_char n] else str_nat (n div 10) @ [digit_char (n mod 10)])"
  by pat_completeness auto
termination
  by (relation "measure id") auto

declare str_nat.simps [simp del]

text \<open>Python's \<open>str\<close> of an integer.\<close>

definition str_int :: "int \<Rightarrow> string" where
  "str_int i = (if i < 0 then CHR ''-'' # str_nat (nat (- i)) else str_nat (nat i))"

definition digit_val :: "char \<Rightarrow> nat option" where
  "digit_val c = (let n = (of_char c :: nat) in if 48 \<le> n \<and> n \<le> 57 then Some (n - 48) else None)"

definition is_digit :: "char \<Rightarrow> bool" where
  "is_digit c = (digit_val c \<noteq> None)"

fun nat_of_digits :: "nat \<Rightarrow> string \<Rightarrow> nat option" where
  "nat_of_digits acc [] = Some acc"
| "nat_of_digits acc (c # cs) =
     (case digit_val c of None \<Rightarrow> None | Some d \<Rightarrow> nat_of_digits (10 * acc + d) cs)"

text \<open>
  The integer a token stands for, when the token is the canonical decimal text of an
  integer that fits the 64-bit column type \<open>int64\<close>. pandas also reads \<open>+5\<close>, \<open>007\<close> or
  \<open> 5\<close> as integers; those spellings count as numeric-looking below and are not modelled.
\<close>

definition int_of_token :: "string \<Rightarrow> int option" where
  "int_of_token t =
     (case (case t of [] \<Rightarrow> None
            | c # cs \<Rightarrow> if c = CHR ''-'' then (if cs = [] then None else map_option (\<lambda>n. - int n) (nat_of_digits 0 cs))
                       else map_option int (nat_of_digits 0 t)) of
        None \<Rightarrow> None
      | Some i \<Rightarrow> if str_int i = t \<and> - (2 ^ 63) \<le> i \<and> i < 2 ^ 63 then Some i else None)"

definition pad2 :: "nat \<Rightarrow> string" where
  "pad2 n = (if n < 10 then CHR ''0'' # str_nat n else str_nat n)"

definition pad4 :: "nat \<Rightarrow> string" where
  "pad4 n = (if n < 10 then ''000'' @ str_nat n else if n < 100 then ''00'' @ str_nat n
     else if n < 1000 then CHR ''0'' # str_nat n else str_nat n)"

text \<open>\<open>d.strftime("%Y-%m-%d")\<close> for a \<open>datetime.date\<close>, the year zero-padded to four digits.\<close>

definition strftime_ymd :: "date \<Rightarrow> string" where
  "strftime_ymd d = (case d of (y, m, dd) \<Rightarrow> pad4 y @ ''-'' @ pad2 m @ ''-'' @ pad2 dd)"

definition leap_year :: "nat \<Rightarrow> bool" where
  "leap_year y = (y mod 4 = 0 \<and> (y mod 100 \<noteq> 0 \<or> y mod 400 = 0))"

definition days_in_month :: "nat \<Rightarrow> nat \<Rightarrow> nat" where
  "days_in_month y m =
     (if m = 2 then (if leap_year y then 29 else 28)
      else if m = 4 \<or> m = 6 \<or> m = 9 \<or> m = 11 then 30 else 31)"

text \<open>The dates a \<open>datetime.date\<close> can hold.\<close>

definition valid_date :: "date \<Rightarrow> bool" where
  "valid_date d = (case d of (y, m, dd) \<Rightarrow>
     1 \<le> y \<and> y \<le> 9999 \<and> 1 \<le> m \<and> m \<le> 12 \<and> 1 \<le> dd \<and> dd \<le> days_in_month y m)"

text \<open>
  One text of the Date column under \<open>pd.to_datetime\<close>: the ten characters
  \<open>YYYY-MM-DD\<close> of a valid date whose year a nanosecond timestamp can hold
  (1678 to 2261 are the years it holds entirely).
\<close>

definition parse_ymd :: "string \<Rightarrow> date option" where
  "parse_ymd s =
     (if length s = 10 \<and> s ! 4 = CHR ''-'' \<and> s ! 7 = CHR ''-'' then
        (case (nat_of_digits 0 (take 4 s), nat_of_digits 0 (take 2 (drop 5 s)),
               nat_of_digits 0 (drop 8 s)) of
           (Some y, Some m, Some dd) \<Rightarrow>
             if valid_date (y, m, dd) \<and> 1678 \<le> y \<and> y \<le> 2261 then Some (y, m, dd) else None
         | _ \<Rightarrow> None)
      else None)"

section \<open>Writing CSV text: \<open>DataFrame.to_csv(index=False)\<close>\<close>

text \<open>
  pandas hands every row to Python's \<open>csv.writer\<close> with the default dialect: comma,
  double quote, \<open>QUOTE_MINIMAL\<close>, quotes inside a field doubled, and the line end of
  the platform, here \<open>LF\<close>. A field is quoted when it holds a comma, a quote, a line
  feed or a carriage return; a row of one empty field is written as two quotes.
  Texts are byte strings (UTF-8); every special character is ASCII.
\<close>

definition CR :: char where
  "CR = CHR 0x0D"

definition LF :: char where
  "LF = CHR 0x0A"

definition TAB :: char where
  "TAB = CHR 0x09"

definition QUOTE :: char where
  "QUOTE = CHR 0x22"

definition COMMA :: char where
  "COMMA = CHR '',''"

definition needs_quote :: "string \<Rightarrow> bool" where
  "needs_quote f = list_ex (\<lambda>c. c = COMMA \<or> c = QUOTE \<or> c = LF \<or> c = CR) f"

fun double_quotes :: "string \<Rightarrow> string" where
  "double_quotes [] = []"
| "double_quotes (c # cs) =
     (if c = QUOTE then QUOTE # QUOTE # double_quotes cs else c # double_quotes cs)"

definition write_field :: "string \<Rightarrow> string" where
  "write_field f = (if needs_quote f then QUOTE # double_quotes f @ [QUOTE] else f)"

fun join_fields :: "string list \<Rightarrow> string" where
  "join_fields [] = []"
| "join_fields [f] = write_field f"
| "join_fields (f # g # fs) = write_field f @ COMMA # join_fields (g # fs)"

definition writerow :: "string list \<Rightarrow> string" where
  "writerow fs = (if fs = [[]] then [QUOTE, QUOTE, LF] else join_fields fs @ [LF])"

definition fmt_cell :: "cell \<Rightarrow> string" where
  "fmt_cell c = (case c of NaN \<Rightarrow> [] | IntV i \<Rightarrow> str_int i | StrV s \<Rightarrow> s | TsV d \<Rightarrow> strftime_ymd d)"

definition to_csv :: "DataFrame \<Rightarrow> string" where
  "to_csv df = writerow (columns df) @ concat (map (\<lambda>r. writerow (map fmt_cell r)) (rows df))"

section \<open>Reading CSV text: \<open>pd.read_csv\<close>\<close>

text \<open>
  The tokenizer of pandas' C parser with the default options, one character at a time.
  \<open>stream\<close> is the field being read, \<open>words\<close> the fields of the line being read,
  \<open>lines\<close> the finished lines. Blank lines and lines of blanks only are skipped.
  In the state \<open>WHITESPACE_LINE\<close> the C code, at the first character that is not a
  blank, goes back to the start of the line and reads it again as fields; the model
  keeps the blanks in \<open>stream\<close> instead and goes on inside the field, which is the same.
  A carriage return outside a quoted field (a \<open>CR\<close> or \<open>CRLF\<close> line end) is not modelled.
\<close>

datatype tstate = START_RECORD | START_FIELD | IN_FIELD | IN_QUOTED_FIELD
  | QUOTE_IN_QUOTED_FIELD | WHITESPACE_LINE

record parser_t =
  state :: tstate
  stream :: string
  words :: "string list"
  lines :: "string list list"

definition PUSH_CHAR :: "char \<Rightarrow> parser_t \<Rightarrow> parser_t" where
  "PUSH_CHAR c p = p\<lparr>stream := stream p @ [c]\<rparr>"

definition END_FIELD :: "parser_t \<Rightarrow> parser_t" where
  "END_FIELD p = p\<lparr>words := words p @ [stream p], stream := []\<rparr>"

definition END_LINE :: "parser_t \<Rightarrow> parser_t" where
  "END_LINE p = p\<lparr>lines := lines p @ [words p], words := [], state := START_RECORD\<rparr>"

definition in_field :: "char \<Rightarrow> parser_t \<Rightarrow> pd_error + parser_t" where
  "in_field c p =
     (if c = LF then Inr (END_LINE (END_FIELD p))
      else if c = CR then Inl NotModelled
      else if c = COMMA then Inr ((END_FIELD p)\<lparr>state := START_FIELD\<rparr>)
      else Inr ((PUSH_CHAR c p)\<lparr>state := IN_FIELD\<rparr>))"

definition start_field :: "char \<Rightarrow> parser_t \<Rightarrow> pd_error + parser_t" where
  "start_field c p =
     (if c = LF then Inr (END_LINE (END_FIELD p))
      else if c = CR then Inl NotModelled
      else if c = QUOTE then Inr (p\<lparr>state := IN_QUOTED_FIELD\<rparr>)
      else if c = COMMA then Inr ((END_FIELD p)\<lparr>state := START_FIELD\<rparr>)
      else Inr ((PUSH_CHAR c p)\<lparr>state := IN_FIELD\<rparr>))"

definition tok_step :: "parser_t \<Rightarrow> char \<Rightarrow> pd_error + parser_t" where
  "tok_step p c =
     (case state p of
        START_RECORD \<Rightarrow>
          if c = LF then Inr p
          else if c = CR then Inl NotModelled
          else if c = CHR '' '' \<or> c = TAB then Inr ((PUSH_CHAR c p)\<lparr>state := WHITESPACE_LINE\<rparr>)
          else start_field c p
      | WHITESPACE_LINE \<Rightarrow>
          if c = LF then Inr (p\<lparr>stream := [], state := START_RECORD\<rparr>)
          else if c = CR then Inl NotModelled
          else if c = CHR '' '' \<or> c = TAB then Inr (PUSH_CHAR c p)
          else in_field c p
      | START_FIELD \<Rightarrow> start_field c p
      | IN_FIELD \<Rightarrow> in_field c p
      | IN_QUOTED_FIELD \<Rightarrow>
          if c = QUOTE then Inr (p\<lparr>state := QUOTE_IN_QUOTED_FIELD\<rparr>)
          else Inr (PUSH_CHAR c p)
      | QUOTE_IN_QUOTED_FIELD \<Rightarrow>
          if c = QUOTE then Inr ((PUSH_CHAR c p)\<lparr>state := IN_QUOTED_FIELD\<rparr>)
          else in_field c p)"

fun tokenize_bytes :: "parser_t \<Rightarrow> string \<Rightarrow> pd_error + parser_t" where
  "tokenize_bytes p [] = Inr p"
| "tokenize_bytes p (c # cs) =
     (case tok_step p c of Inl e \<Rightarrow> Inl e | Inr p' \<Rightarrow> tokenize_bytes p' cs)"

definition parser_handle_eof :: "parser_t \<Rightarrow> pd_error + string list list" where
  "parser_handle_eof p =
     (case state p of
        START_RECORD \<Rightarrow> Inr (lines p)
      | WHITESPACE_LINE \<Rightarrow> Inr (lines p)
      | IN_QUOTED_FIELD \<Rightarrow> Inl ParserError
      | _ \<Rightarrow> Inr (lines (END_LINE (END_FIELD p))))"

definition tokenize_all_rows :: "string \<Rightarrow> pd_error + string list list" where
  "tokenize_all_rows txt =
     (case tokenize_bytes \<lparr>state = START_RECORD, stream = [], words = [], lines = []\<rparr> txt of
        Inl e \<Rightarrow> Inl e
      | Inr p \<Rightarrow> parser_handle_eof p)"

text \<open>The texts that \<open>read_csv\<close> takes for a missing value (pandas 2).\<close>

definition na_values :: "string list" where
  "na_values = ['''', ''#N/A'', ''#N/A N/A'', ''#NA'', ''-1.#IND'', ''-1.#QNAN'', ''-NaN'',
     ''-nan'', ''1.#IND'', ''1.#QNAN'', ''<NA>'', ''N/A'', ''NA'', ''NULL'', ''NaN'', ''None'',
     ''n/a'', ''nan'', ''null'']"

definition is_na :: "string \<Rightarrow> bool" where
  "is_na t = List.member na_values t"

text \<open>
  Tokens that pandas may read as a number or as a boolean. The test is generous on
  purpose (it accepts every token the C parser converts and some it does not): a column
  it flags is left out of the model rather than guessed.
\<close>

definition is_space :: "char \<Rightarrow> bool" where
  "is_space c = (c = CHR '' '' \<or> c = TAB \<or> c = LF \<or> c = CR
     \<or> c = CHR 0x0B \<or> c = CHR 0x0C)"

definition strip :: "string \<Rightarrow> string" where
  "strip s = rev (dropWhile is_space (rev (dropWhile is_space s)))"

definition to_lower :: "char \<Rightarrow> char" where
  "to_lower c = (let n = (of_char c :: nat) in if 65 \<le> n \<and> n \<le> 90 then char_of (n + 32) else c)"

fun number_body :: "bool \<Rightarrow> string \<Rightarrow> bool" where
  "number_body after_e [] = True"
| "number_body after_e (c # cs) =
     (if is_digit c \<or> c = CHR ''.'' then number_body False cs
      else if c = CHR ''e'' \<or> c = CHR ''E'' then number_body True cs
      else if c = CHR ''+'' \<or> c = CHR ''-'' then after_e \<and> number_body False cs
      else False)"

definition numeric_like :: "string \<Rightarrow> bool" where
  "numeric_like t =
     (let s = strip t;
          b = (case s of [] \<Rightarrow> [] | c # cs \<Rightarrow> if c = CHR ''+'' \<or> c = CHR ''-'' then cs else s)
      in (list_ex is_digit b \<and> number_body False b)
         \<or> List.member [''inf'', ''infinity'', ''nan''] (map to_lower b))"

definition bool_like :: "string \<Rightarrow> bool" where
  "bool_like t = List.member [''True'', ''TRUE'', ''true'', ''False'', ''FALSE'', ''false''] t"

definition int_cell :: "string \<Rightarrow> cell" where
  "int_cell t = (case int_of_token t of Some i \<Rightarrow> IntV i | None \<Rightarrow> NaN)"

definition str_cell :: "string \<Rightarrow> cell" where
  "str_cell t = (if is_na t then NaN else StrV t)"

text \<open>
  The values of one column from its tokens. With no token left after the missing ones
  the column is all \<open>NaN\<close>; when every token is an integer the column is \<open>int64\<close>;
  otherwise pandas tries floating point and boolean and, failing both, keeps the texts.
  Integers next to missing values make a floating point column.
\<close>

definition infer_column :: "string list \<Rightarrow> pd_error + cell list" where
  "infer_column toks =
     (let vals = filter (\<lambda>t. \<not> is_na t) toks in
      if vals = [] then Inr (map (\<lambda>t. NaN) toks)
      else if list_all (\<lambda>t. int_of_token t \<noteq> None) vals then
        (if length vals = length toks then Inr (map int_cell toks) else Inl NotModelled)
      else if list_all (\<lambda>t. numeric_like t \<or> bool_like t) vals then Inl NotModelled
      else Inr (map str_cell toks))"

fun sequence :: "('e + 'a) list \<Rightarrow> 'e + 'a list" where
  "sequence [] = Inr []"
| "sequence (x # xs) =
     (case x of Inl e \<Rightarrow> Inl e
      | Inr v \<Rightarrow> (case sequence xs of Inl e \<Rightarrow> Inl e | Inr vs \<Rightarrow> Inr (v # vs)))"

definition pad_row :: "nat \<Rightarrow> string list \<Rightarrow> string list" where
  "pad_row h r = r @ replicate (h - length r) []"

definition column_of :: "nat \<Rightarrow> 'a list list \<Rightarrow> 'a list" where
  "column_of j rs = map (\<lambda>r. r ! j) rs"

definition rows_of_columns :: "nat \<Rightarrow> 'a list list \<Rightarrow> 'a list list" where
  "rows_of_columns n cols = map (\<lambda>i. map (\<lambda>col. col ! i) cols) [0..<n]"

text \<open>
  \<open>pd.read_csv(text)\<close>: the first line is the header. A data line shorter than the
  header is filled with missing values; one longer than the header and than the first
  data line is an error. Not modelled: a first data line longer than the header (pandas
  takes its first fields as an index), and duplicate or empty labels (pandas renames them).
\<close>

definition read_csv :: "string \<Rightarrow> pd_error + DataFrame" where
  "read_csv txt =
     (case tokenize_all_rows txt of
        Inl e \<Rightarrow> Inl e
      | Inr [] \<Rightarrow> Inl EmptyDataError
      | Inr (hdr # data) \<Rightarrow>
          if \<not> distinct hdr \<or> List.member hdr [] then Inl NotModelled
          else if list_ex (\<lambda>d. max (length hdr) (length (hd data)) < length d) (tl data)
            then Inl ParserError
          else if list_ex (\<lambda>d. length hdr < length d) data then Inl NotModelled
          else
            (let padded = map (pad_row (length hdr)) data in
             case sequence (map (\<lambda>j. infer_column (column_of j padded)) [0..<length hdr]) of
               Inl e \<Rightarrow> Inl e
             | Inr cols \<Rightarrow> Inr \<lparr>columns = hdr, rows = rows_of_columns (length data) cols\<rparr>))"

section \<open>The store: \<open>load_data\<close> and \<open>save_data\<close>\<close>

text \<open>
  The file system is the content of \<open>user_ratings.csv\<close>, or \<open>None\<close> when the file does
  not exist. Nothing but \<open>save_data\<close> writes it.
\<close>

type_synonym filesystem = "string option"

definition schema :: "string list" where
  "schema = [''Name'', ''Date'', ''Scale'', ''Note'']"

definition load_data :: "filesystem \<Rightarrow> pd_error + DataFrame" where
  "load_data fs =
     (case fs of
        Some txt \<Rightarrow> read_csv txt
      | None \<Rightarrow> Inr \<lparr>columns = schema, rows = []\<rparr>)"

definition save_data :: "DataFrame \<Rightarrow> filesystem \<Rightarrow> filesystem" where
  "save_data df fs = Some (to_csv df)"

section \<open>The input page\<close>

text \<open>
  \<open>pd.concat([df, new_entry], ignore_index=True)\<close>: the labels of the first frame, then
  the new labels of the second; the rows of the first, then the rows of the second, each
  laid out under those labels with \<open>NaN\<close> where it has no such column.
\<close>

fun index_of :: "'a \<Rightarrow> 'a list \<Rightarrow> nat option" where
  "index_of x [] = None"
| "index_of x (y # ys) = (if x = y then Some 0 else map_option Suc (index_of x ys))"

definition reindex :: "string list \<Rightarrow> DataFrame \<Rightarrow> cell list list" where
  "reindex cs df =
     map (\<lambda>r. map (\<lambda>c. case index_of c (columns df) of
                          Some j \<Rightarrow> if j < length r then r ! j else NaN
                        | None \<Rightarrow> NaN) cs) (rows df)"

definition pd_concat :: "DataFrame \<Rightarrow> DataFrame \<Rightarrow> DataFrame" where
  "pd_concat df1 df2 =
     (let cs = columns df1 @ filter (\<lambda>c. \<not> List.member (columns df1) c) (columns df2)
      in \<lparr>columns = cs, rows = reindex cs df1 @ reindex cs df2\<rparr>)"

text \<open>
  The values of the form when the submit button is pressed: the text input, the date
  input (a \<open>datetime.date\<close>), the slider and the text area.
\<close>

record form =
  user_name :: string
  rating_date :: date
  rating_scale :: int
  notes_area :: string

datatype message = st_error string | st_success string | st_warning string

definition new_entry :: "form \<Rightarrow> DataFrame" where
  "new_entry f = \<lparr>columns = schema,
     rows = [[StrV (user_name f), StrV (strftime_ymd (rating_date f)), IntV (rating_scale f),
              StrV (notes_area f)]]\<rparr>"

text \<open>
  One press of the submit button: the message shown, or the exception that ends the run,
  and the file system afterwards.
\<close>

definition input_page :: "form \<Rightarrow> filesystem \<Rightarrow> (pd_error + message) \<times> filesystem" where
  "input_page f fs =
     (if user_name f = [] then (Inr (st_error ''Please enter your name.''), fs)
      else
        (case load_data fs of
           Inl e \<Rightarrow> (Inl e, fs)
         | Inr df \<Rightarrow>
             (Inr (st_success ''Your rating has been recorded successfully!''),
              save_data (pd_concat df (new_entry f)) fs)))"

section \<open>Loading without a file, and the empty name\<close>

text \<open>
  C4. When \<open>user_ratings.csv\<close> does not exist, \<open>load_data\<close> returns a frame and no
  error: the frame has no row and exactly the columns Name, Date, Scale and Note.
\<close>

theorem load_data_missing_file:
  "load_data None = Inr \<lparr>columns = [''Name'', ''Date'', ''Scale'', ''Note''], rows = []\<rparr>
   \<and> (\<exists>df. load_data None = Inr df \<and> rows df = []
         \<and> set (columns df) = {''Name'', ''Date'', ''Scale'', ''Note''})"
  by (simp add: load_data_def schema_def)

text \<open>
  C5. A submission with the empty name shows the error message and writes nothing: the
  file system after the submission is the one before it, so a later load gives the same
  table.
\<close>

theorem input_page_empty_name:
  assumes "user_name f = []"
  shows "input_page f fs = (Inr (st_error ''Please enter your name.''), fs)
         \<and> load_data (snd (input_page f fs)) = load_data fs"
  using assms by (simp add: input_page_def)

theorem input_page_empty_name_witness:
  "user_name \<lparr>user_name = [], rating_date = (2024, 1, 5), rating_scale = 5, notes_area = ''tired''\<rparr> = []
   \<and> input_page \<lparr>user_name = [], rating_date = (2024, 1, 5), rating_scale = 5, notes_area = ''tired''\<rparr>
        (Some ''Name,Date,Scale,Note\<newline>Bob,2024-01-05,5,\<newline>'')
      = (Inr (st_error ''Please enter your name.''),
         Some ''Name,Date,Scale,Note\<newline>Bob,2024-01-05,5,\<newline>'')"
  using input_page_empty_name
    [of "\<lparr>user_name = [], rating_date = (2024, 1, 5), rating_scale = 5, notes_area = ''tired''\<rparr>"
        "Some ''Name,Date,Scale,Note\<newline>Bob,2024-01-05,5,\<newline>''"]
  by simp

section \<open>Sorting: \<open>DataFrame.sort_values\<close> with the default \<open>kind='quicksort'\<close>\<close>

text \<open>
  \<open>df.sort_values('Date')\<close> asks numpy for the order of the rows:
  \<open>argsort(kind='quicksort')\<close> on the timestamps, and takes the rows in that order.
  numpy's \<open>aquicksort\<close> sorts an array \<open>tosort\<close> of row numbers by the keys of the rows.
  It is an introsort: a part of more than 17 row numbers is split around the median of
  its first, middle and last key; a part of at most 17 is sorted by insertion; a part
  taken from the stack after \<open>2 * floor(log2 n)\<close> splits is sorted by heapsort.
  The functions below work on one part of \<open>tosort\<close> at a time (the row numbers between
  \<open>pl\<close> and \<open>pr\<close>, as a list whose position 0 is \<open>pl\<close>); \<open>key\<close> gives the key of a row
  number. This is the generic routine of numpy's \<open>quicksort.cpp\<close>; a numpy build that
  sorts timestamps with another routine is not modelled. Missing dates do not occur:
  \<open>sort_values\<close> below is defined on columns of timestamps only.
\<close>

definition INTP_SWAP :: "nat \<Rightarrow> nat \<Rightarrow> 'a list \<Rightarrow> 'a list" where
  "INTP_SWAP i j xs = xs[i := xs ! j, j := xs ! i]"

text \<open>
  \<open>do { ++pi; } while (v[*pi] < vp)\<close> and \<open>do { --pj; } while (vp < v[*pj])\<close>. The C
  loops have no bound of their own: the median step leaves a key that stops each of
  them inside the part. The bounds written here are never reached.
\<close>

function scan_up :: "(nat \<Rightarrow> 'k::linorder) \<Rightarrow> 'k \<Rightarrow> nat list \<Rightarrow> nat \<Rightarrow> nat" where
  "scan_up key vp xs i =
     (if Suc i < length xs \<and> key (xs ! Suc i) < vp then scan_up key vp xs (Suc i) else Suc i)"
  by pat_completeness auto
termination
  by (relation "measure (\<lambda>(key, vp, xs, i). length xs - i)") auto

declare scan_up.simps [simp del]

fun scan_down :: "(nat \<Rightarrow> 'k::linorder) \<Rightarrow> 'k \<Rightarrow> nat list \<Rightarrow> nat \<Rightarrow> nat" where
  "scan_down key vp xs 0 = 0"
| "scan_down key vp xs (Suc j) =
     (if 0 < j \<and> vp < key (xs ! j) then scan_down key vp xs j else j)"

lemma scan_up_gt: "i < scan_up key vp xs i"
  by (induction key vp xs i rule: scan_up.induct) (subst scan_up.simps, auto)

lemma scan_down_le: "scan_down key vp xs j \<le> j"
  by (induction j) auto

lemma scan_down_lt: "0 < j \<Longrightarrow> scan_down key vp xs j < j"
  by (cases j) (auto intro: le_less_trans [OF scan_down_le])

function part_loop :: "(nat \<Rightarrow> 'k::linorder) \<Rightarrow> 'k \<Rightarrow> nat list \<Rightarrow> nat \<Rightarrow> nat \<Rightarrow> nat \<times> nat list" where
  "part_loop key vp xs i j =
     (let i' = scan_up key vp xs i; j' = scan_down key vp xs j in
      if i' \<ge> j' then (i', xs) else part_loop key vp (INTP_SWAP i' j' xs) i' j')"
  by pat_completeness auto
termination
proof (relation "measure (\<lambda>(key, vp, xs, i, j). j - i)", goal_cases)
  case 1
  show ?case by simp
next
  case (2 key vp xs i j x xa)
  have "i < x" using 2(1) scan_up_gt by metis
  moreover have "xa \<le> j" using 2(2) scan_down_le by metis
  ultimately show ?case using 2(3) by simp
qed

declare part_loop.simps [simp del]

text \<open>
  One split of a part \<open>xs\<close> (\<open>pl\<close> is position 0, \<open>pr\<close> the last position): the result is
  the position of the pivot and the part after the swaps.
\<close>

definition partition :: "(nat \<Rightarrow> 'k::linorder) \<Rightarrow> nat list \<Rightarrow> nat \<times> nat list" where
  "partition key xs =
     (let pr = length xs - 1;
          pm = pr div 2;
          xs1 = (if key (xs ! pm) < key (xs ! 0) then INTP_SWAP pm 0 xs else xs);
          xs2 = (if key (xs1 ! pr) < key (xs1 ! pm) then INTP_SWAP pr pm xs1 else xs1);
          xs3 = (if key (xs2 ! pm) < key (xs2 ! 0) then INTP_SWAP pm 0 xs2 else xs2);
          vp = key (xs3 ! pm);
          xs4 = INTP_SWAP pm (pr - 1) xs3
      in case part_loop key vp xs4 0 (pr - 1) of
           (p, xs5) \<Rightarrow> (p, INTP_SWAP p (pr - 1) xs5))"

text \<open>
  The insertion sort of a part: \<open>vi\<close> is the row number taken out at \<open>pi\<close>, the larger
  keys before it move one place up, and \<open>vi\<close> goes where the move stops.
\<close>

fun ins_shift :: "(nat \<Rightarrow> 'k::linorder) \<Rightarrow> 'k \<Rightarrow> nat list \<Rightarrow> nat \<Rightarrow> nat \<times> nat list" where
  "ins_shift key vp xs 0 = (0, xs)"
| "ins_shift key vp xs (Suc pk) =
     (if vp < key (xs ! pk) then ins_shift key vp (xs[Suc pk := xs ! pk]) pk else (Suc pk, xs))"

definition ins_step :: "(nat \<Rightarrow> 'k::linorder) \<Rightarrow> nat \<Rightarrow> nat list \<Rightarrow> nat list" where
  "ins_step key i xs =
     (let vi = xs ! i in case ins_shift key (key vi) xs i of (j, ys) \<Rightarrow> ys[j := vi])"

definition insertion_sort :: "(nat \<Rightarrow> 'k::linorder) \<Rightarrow> nat list \<Rightarrow> nat list" where
  "insertion_sort key xs = fold (ins_step key) [1..<length xs] xs"

text \<open>
  numpy's \<open>aheapsort\<close> of a part of \<open>n\<close> row numbers. The C code counts positions from 1
  (\<open>a = tosort - 1\<close>); \<open>heap_get\<close> and \<open>heap_set\<close> are \<open>a[i]\<close> and \<open>a[i] = x\<close>.
\<close>

definition heap_get :: "nat list \<Rightarrow> nat \<Rightarrow> nat" where
  "heap_get a i = a ! (i - 1)"

definition heap_set :: "nat list \<Rightarrow> nat \<Rightarrow> nat \<Rightarrow> nat list" where
  "heap_set a i x = a[i - 1 := x]"

function sift_down :: "(nat \<Rightarrow> 'k::linorder) \<Rightarrow> nat \<Rightarrow> nat \<Rightarrow> nat list \<Rightarrow> nat \<Rightarrow> nat \<Rightarrow> nat list" where
  "sift_down key tmp n a i j =
     (if 0 < j \<and> j \<le> n then
        (let j' = (if j < n \<and> key (heap_get a j) < key (heap_get a (j + 1)) then j + 1 else j) in
         if key tmp < key (heap_get a j') then sift_down key tmp n (heap_set a i (heap_get a j')) j' (j' + j')
         else heap_set a i tmp)
      else heap_set a i tmp)"
  by pat_completeness auto
termination
  by (relation "measure (\<lambda>(key, tmp, n, a, i, j). Suc n - j)") auto

declare sift_down.simps [simp del]

fun heapify :: "(nat \<Rightarrow> 'k::linorder) \<Rightarrow> nat \<Rightarrow> nat list \<Rightarrow> nat \<Rightarrow> nat list" where
  "heapify key n a 0 = a"
| "heapify key n a (Suc l) = heapify key n (sift_down key (heap_get a (Suc l)) n a (Suc l) (2 * Suc l)) l"

fun heap_extract :: "(nat \<Rightarrow> 'k::linorder) \<Rightarrow> nat list \<Rightarrow> nat \<Rightarrow> nat list" where
  "heap_extract key a 0 = a"
| "heap_extract key a (Suc n) =
     (if n = 0 then a
      else (let tmp = heap_get a (Suc n); a' = heap_set a (Suc n) (heap_get a 1)
            in heap_extract key (sift_down key tmp n a' 1 2) n))"

definition aheapsort :: "(nat \<Rightarrow> 'k::linorder) \<Rightarrow> nat list \<Rightarrow> nat list" where
  "aheapsort key xs = heap_extract key (heapify key (length xs) xs (length xs div 2)) (length xs)"

text \<open>\<open>npy_get_msb\<close>: the position of the highest bit, \<open>floor(log2 n)\<close>.\<close>

function npy_get_msb :: "nat \<Rightarrow> nat" where
  "npy_get_msb n = (if n div 2 = 0 then 0 else Suc (npy_get_msb (n div 2)))"
  by pat_completeness auto
termination
  by (relation "measure id") auto

declare npy_get_msb.simps [simp del]

lemma length_INTP_SWAP [simp]: "length (INTP_SWAP i j xs) = length xs"
  by (simp add: INTP_SWAP_def)

lemma mset_INTP_SWAP: "i < length xs \<Longrightarrow> j < length xs \<Longrightarrow> mset (INTP_SWAP i j xs) = mset xs"
  by (simp add: INTP_SWAP_def mset_swap)

lemma nth_INTP_SWAP:
  "i < length xs \<Longrightarrow> j < length xs \<Longrightarrow> k < length xs \<Longrightarrow>
   INTP_SWAP i j xs ! k = (if k = j then xs ! i else if k = i then xs ! j else xs ! k)"
  by (auto simp: INTP_SWAP_def nth_list_update)

lemma scan_up_spec:
  assumes "i < j" "j < length xs" "\<not> key (xs ! j) < vp"
  shows "i < scan_up key vp xs i \<and> scan_up key vp xs i \<le> j
         \<and> \<not> key (xs ! scan_up key vp xs i) < vp
         \<and> (\<forall>k. i < k \<and> k < scan_up key vp xs i \<longrightarrow> key (xs ! k) < vp)"
  using assms
proof (induction key vp xs i rule: scan_up.induct)
  case (1 key vp xs i)
  show ?case
  proof (cases "Suc i < length xs \<and> key (xs ! Suc i) < vp")
    case True
    then have "Suc i \<noteq> j" using 1(4) by auto
    then have lt: "Suc i < j" using 1(2) by simp
    have eq: "scan_up key vp xs i = scan_up key vp xs (Suc i)"
      using True by (subst scan_up.simps) simp
    have IH: "Suc i < scan_up key vp xs (Suc i) \<and> scan_up key vp xs (Suc i) \<le> j
         \<and> \<not> key (xs ! scan_up key vp xs (Suc i)) < vp
         \<and> (\<forall>k. Suc i < k \<and> k < scan_up key vp xs (Suc i) \<longrightarrow> key (xs ! k) < vp)"
      using "1.IH"[OF True lt 1(3) 1(4)] .
    have "key (xs ! k) < vp" if "i < k" "k < scan_up key vp xs (Suc i)" for k
    proof (cases "k = Suc i")
      case True
      then show ?thesis using \<open>Suc i < length xs \<and> key (xs ! Suc i) < vp\<close> by simp
    next
      case False
      then have "Suc i < k" using that(1) by simp
      then show ?thesis using IH that(2) by blast
    qed
    then show ?thesis unfolding eq using IH by auto
  next
    case False
    then have eq: "scan_up key vp xs i = Suc i"
      by (subst scan_up.simps) auto
    from False 1(2) 1(3) have "\<not> key (xs ! Suc i) < vp" by auto
    then show ?thesis unfolding eq using 1(2) by auto
  qed
qed

lemma scan_down_spec:
  assumes "i < j" "\<not> vp < key (xs ! i)"
  shows "scan_down key vp xs j < j \<and> i \<le> scan_down key vp xs j
         \<and> \<not> vp < key (xs ! scan_down key vp xs j)
         \<and> (\<forall>k. scan_down key vp xs j < k \<and> k < j \<longrightarrow> vp < key (xs ! k))"
  using assms
proof (induction j)
  case 0
  then show ?case by simp
next
  case (Suc j)
  show ?case
  proof (cases "0 < j \<and> vp < key (xs ! j)")
    case True
    then have "i \<noteq> j" using Suc.prems by auto
    then have lt: "i < j" using Suc.prems by simp
    from Suc.IH[OF lt Suc.prems(2)] True show ?thesis
      by (auto elim: less_SucE)
  next
    case False
    then have eq: "scan_down key vp xs (Suc j) = j" by auto
    have "\<not> vp < key (xs ! j)"
    proof (cases "j = 0")
      case True
      then show ?thesis using Suc.prems by simp
    next
      case False
      then show ?thesis using \<open>\<not> (0 < j \<and> vp < key (xs ! j))\<close> by simp
    qed
    then show ?thesis unfolding eq using Suc.prems by auto
  qed
qed


lemma part_loop_spec:
  assumes "i < j" "j \<le> q" "q < length xs"
    and "\<forall>k\<le>i. key (xs ! k) \<le> vp"
    and "\<forall>k. j \<le> k \<and> k < length xs \<longrightarrow> vp \<le> key (xs ! k)"
    and "xs ! q = piv"
    and "part_loop key vp xs i j = (p, ys)"
  shows "mset ys = mset xs \<and> length ys = length xs \<and> i < p \<and> p \<le> q \<and> ys ! q = piv
         \<and> (\<forall>k<p. key (ys ! k) \<le> vp)
         \<and> (\<forall>k. p \<le> k \<and> k < length ys \<longrightarrow> vp \<le> key (ys ! k))"
  using assms
proof (induction key vp xs i j arbitrary: p ys rule: part_loop.induct)
  case (1 key vp xs i j)
  define i' where "i' = scan_up key vp xs i"
  define j' where "j' = scan_down key vp xs j"
  have jlen: "j < length xs" using 1(3,4) by simp
  have "\<not> key (xs ! j) < vp" using 1(6) jlen by (auto simp: not_less)
  with scan_up_spec[of i j xs key vp] 1(2) jlen
  have up: "i < i'" "i' \<le> j" "vp \<le> key (xs ! i')" "\<And>k. i < k \<Longrightarrow> k < i' \<Longrightarrow> key (xs ! k) < vp"
    by (auto simp: i'_def not_less)
  have "\<not> vp < key (xs ! i)" using 1(5) by (auto simp: not_less)
  with scan_down_spec[of i j vp key xs] 1(2)
  have down: "j' < j" "i \<le> j'" "key (xs ! j') \<le> vp" "\<And>k. j' < k \<Longrightarrow> k < j \<Longrightarrow> vp < key (xs ! k)"
    by (auto simp: j'_def not_less)
  have low: "key (xs ! k) \<le> vp" if "k < i'" for k
  proof (cases "k \<le> i")
    case True then show ?thesis using 1(5) by simp
  next
    case False then show ?thesis using up(4)[of k] that by simp
  qed
  have high: "vp \<le> key (xs ! k)" if "j' < k" "k < length xs" for k
  proof (cases "j \<le> k")
    case True then show ?thesis using 1(6) that by simp
  next
    case False then show ?thesis using down(4)[of k] that by simp
  qed
  show ?case
  proof (cases "i' \<ge> j'")
    case True
    then have "part_loop key vp xs i j = (i', xs)"
      by (subst part_loop.simps) (simp add: i'_def j'_def Let_def)
    then have eq: "p = i'" "ys = xs" using 1(8) by simp_all
    have "vp \<le> key (xs ! k)" if "i' \<le> k" "k < length xs" for k
    proof (cases "k = i'")
      case True then show ?thesis using up(3) by simp
    next
      case False
      then have "j' < k" using that(1) \<open>j' \<le> i'\<close> by simp
      then show ?thesis using high that(2) by simp
    qed
    then show ?thesis unfolding eq using up(1,2) 1(3,7) low by auto
  next
    case False
    then have lt: "i' < j'" by simp
    let ?xs = "INTP_SWAP i' j' xs"
    have j'len: "j' < length xs" using down(1) jlen by simp
    have i'len: "i' < length xs" using lt j'len by simp
    have rec: "part_loop key vp ?xs i' j' = (p, ys)"
      using 1(8) False by (subst (asm) part_loop.simps) (simp add: i'_def j'_def Let_def)
    have a: "j' \<le> q" using down(1) 1(3) by simp
    have b: "q < length ?xs" using 1(4) by simp
    have c: "\<forall>k\<le>i'. key (?xs ! k) \<le> vp"
    proof (intro allI impI)
      fix k assume "k \<le> i'"
      then have "k < length xs" using i'len by simp
      then show "key (?xs ! k) \<le> vp"
        using \<open>k \<le> i'\<close> lt low[of k] down(3) by (simp add: nth_INTP_SWAP i'len j'len)
    qed
    have d: "\<forall>k. j' \<le> k \<and> k < length ?xs \<longrightarrow> vp \<le> key (?xs ! k)"
    proof (intro allI impI)
      fix k assume "j' \<le> k \<and> k < length ?xs"
      then have k: "j' \<le> k" "k < length xs" by simp_all
      then show "vp \<le> key (?xs ! k)"
        using lt high[of k] up(3) by (simp add: nth_INTP_SWAP i'len j'len)
    qed
    have e: "?xs ! q = piv"
      using 1(7) 1(3,4) down(1) lt by (simp add: nth_INTP_SWAP i'len j'len)
    have f: "\<not> j' \<le> i'" using lt by simp
    from "1.IH"[OF i'_def j'_def f lt a b c d e rec]
    show ?thesis using up(1) by (simp add: mset_INTP_SWAP i'len j'len)
  qed
qed

lemma partition_spec:
  assumes "3 \<le> length xs" "partition key xs = (p, ys)"
  shows "mset ys = mset xs \<and> length ys = length xs \<and> p < length xs
         \<and> (\<forall>k<p. key (ys ! k) \<le> key (ys ! p))
         \<and> (\<forall>k. p < k \<and> k < length ys \<longrightarrow> key (ys ! p) \<le> key (ys ! k))"
proof -
  define pr where "pr = length xs - 1"
  define pm where "pm = pr div 2"
  define xs1 where "xs1 = (if key (xs ! pm) < key (xs ! 0) then INTP_SWAP pm 0 xs else xs)"
  define xs2 where "xs2 = (if key (xs1 ! pr) < key (xs1 ! pm) then INTP_SWAP pr pm xs1 else xs1)"
  define xs3 where "xs3 = (if key (xs2 ! pm) < key (xs2 ! 0) then INTP_SWAP pm 0 xs2 else xs2)"
  define vp where "vp = key (xs3 ! pm)"
  define xs4 where "xs4 = INTP_SWAP pm (pr - 1) xs3"
  obtain p' xs5 where loop: "part_loop key vp xs4 0 (pr - 1) = (p', xs5)"
    by (cases "part_loop key vp xs4 0 (pr - 1)")
  have "partition key xs =
      (case part_loop key vp xs4 0 (pr - 1) of (p, xs5) \<Rightarrow> (p, INTP_SWAP p (pr - 1) xs5))"
    by (simp only: partition_def Let_def vp_def xs4_def xs3_def xs2_def xs1_def pm_def pr_def)
  then have res: "p = p'" "ys = INTP_SWAP p' (pr - 1) xs5"
    using assms(2) loop by simp_all
  have pr: "2 \<le> pr" "pr < length xs" using assms(1) by (simp_all add: pr_def)
  have pm: "0 < pm" "pm \<le> pr - 1" "pm < pr" using pr by (simp_all add: pm_def)
  have len: "length xs1 = length xs" "length xs2 = length xs" "length xs3 = length xs"
    "length xs4 = length xs"
    by (simp_all add: xs1_def xs2_def xs3_def xs4_def)
  have ix: "pm < length xs" "0 < length xs" "pr - 1 < length xs"
    using pr pm by auto
  have ms1: "mset xs1 = mset xs"
    using pr ix by (simp add: xs1_def mset_INTP_SWAP)
  have ms2: "mset xs2 = mset xs1"
    using pr ix len(1) by (simp add: xs2_def mset_INTP_SWAP)
  have ms3: "mset xs3 = mset xs2"
    using pr ix len(2) by (simp add: xs3_def mset_INTP_SWAP)
  have ms4: "mset xs4 = mset xs3"
    using pr ix len(3) by (simp add: xs4_def mset_INTP_SWAP)
  have ms: "mset xs4 = mset xs"
    using ms1 ms2 ms3 ms4 by simp
  have o1: "key (xs1 ! 0) \<le> key (xs1 ! pm)"
    using pr pm ix by (auto simp: xs1_def nth_INTP_SWAP)
  have o2: "key (xs2 ! pm) \<le> key (xs2 ! pr)" "key (xs2 ! 0) \<le> key (xs2 ! pr)"
    using pr pm ix o1 len by (auto simp: xs2_def nth_INTP_SWAP)
  have o3: "key (xs3 ! 0) \<le> key (xs3 ! pm)" "key (xs3 ! pm) \<le> key (xs3 ! pr)"
    using pr pm ix o2 len by (auto simp: xs3_def nth_INTP_SWAP)
  have k0: "key (xs4 ! 0) \<le> vp"
    using pr pm ix o3 len by (auto simp: xs4_def vp_def nth_INTP_SWAP)
  have kq: "key (xs4 ! (pr - 1)) = vp"
    using pr pm ix len by (auto simp: xs4_def vp_def nth_INTP_SWAP)
  have kr: "vp \<le> key (xs4 ! pr)"
    using pr pm ix o3 len by (auto simp: xs4_def vp_def nth_INTP_SWAP)
  have a: "0 < pr - 1" using pr by simp
  have b: "pr - 1 < length xs4" using pr len by simp
  have c: "\<forall>k\<le>0. key (xs4 ! k) \<le> vp" using k0 by simp
  have d: "\<forall>k. pr - 1 \<le> k \<and> k < length xs4 \<longrightarrow> vp \<le> key (xs4 ! k)"
  proof (intro allI impI)
    fix k assume "pr - 1 \<le> k \<and> k < length xs4"
    then have "k = pr - 1 \<or> k = pr" using len pr by (auto simp: pr_def)
    then show "vp \<le> key (xs4 ! k)" using kq kr by auto
  qed
  from part_loop_spec[OF a le_refl b c d refl loop]
  have L: "mset xs5 = mset xs4" "length xs5 = length xs4" "0 < p'" "p' \<le> pr - 1"
    "xs5 ! (pr - 1) = xs4 ! (pr - 1)" "\<And>k. k < p' \<Longrightarrow> key (xs5 ! k) \<le> vp"
    "\<And>k. p' \<le> k \<Longrightarrow> k < length xs5 \<Longrightarrow> vp \<le> key (xs5 ! k)"
    by auto
  have l5: "length xs5 = length xs" using L(2) len by simp
  have p'len: "p' < length xs5" "pr - 1 < length xs5" using L(4) pr l5 by simp_all
  have piv: "key (ys ! p) = vp"
    using p'len L(5) kq by (simp add: res nth_INTP_SWAP)
  have lo: "key (ys ! k) \<le> vp" if "k < p" for k
    using that p'len L(4) L(6)[of k] by (simp add: res nth_INTP_SWAP)
  have hi: "vp \<le> key (ys ! k)" if "p < k" "k < length ys" for k
    using that p'len L(7)[of k] L(7)[of p'] by (simp add: res nth_INTP_SWAP)
  show ?thesis
    using lo hi piv L(1) ms l5 p'len pr L(4) by (simp add: res mset_INTP_SWAP)
qed

lemma partition_sides:
  assumes "16 < length xs - 1" "partition key xs = (p, ys)"
  shows "length (take p ys) < length xs" "length (drop (Suc p) ys) < length xs"
proof -
  have "3 \<le> length xs" using assms(1) by simp
  from partition_spec[OF this assms(2)]
  have "length ys = length xs" "p < length xs" by simp_all
  then show "length (take p ys) < length xs" "length (drop (Suc p) ys) < length xs"
    by simp_all
qed

text \<open>
  The main loop of \<open>aquicksort\<close>, written by parts instead of with the stack of the C
  code: the two sides of a split are disjoint parts of \<open>tosort\<close>, so sorting one and
  then the other gives what the stack gives. The smaller side is sorted next without
  looking at the depth counter; the larger side comes from the stack later (\<open>popped\<close>),
  where a negative counter sends it to heapsort.
\<close>

function aquicksort_part :: "(nat \<Rightarrow> 'k::linorder) \<Rightarrow> bool \<Rightarrow> int \<Rightarrow> nat list \<Rightarrow> nat list" where
  "aquicksort_part key popped cdepth xs =
     (if popped \<and> cdepth < 0 then aheapsort key xs
      else if 16 < length xs - 1 then
        (case partition key xs of
           (p, ys) \<Rightarrow>
             if p < (length xs - 1) - p
             then aquicksort_part key False (cdepth - 1) (take p ys) @
                  ys ! p # aquicksort_part key True (cdepth - 1) (drop (Suc p) ys)
             else aquicksort_part key True (cdepth - 1) (take p ys) @
                  ys ! p # aquicksort_part key False (cdepth - 1) (drop (Suc p) ys))
      else insertion_sort key xs)"
  by pat_completeness auto
termination
proof (relation "measure (\<lambda>(key, popped, cdepth, xs). length xs)", goal_cases)
  case 1
  show ?case by simp
next
  case 2
  then show ?case using partition_sides by (auto simp: eq_commute)
next
  case 3
  then show ?case using partition_sides by (auto simp: eq_commute)
next
  case 4
  then show ?case using partition_sides by (auto simp: eq_commute)
next
  case 5
  then show ?case using partition_sides by (auto simp: eq_commute)
qed

declare aquicksort_part.simps [simp del]

text \<open>
  \<open>v.argsort(kind='quicksort')\<close>: \<open>tosort\<close> starts as \<open>0, 1, ..., n - 1\<close> and the depth
  counter as twice \<open>npy_get_msb n\<close>.
\<close>

definition npy_aquicksort :: "'k::linorder list \<Rightarrow> nat list" where
  "npy_aquicksort v =
     aquicksort_part (\<lambda>i. v ! i) True (2 * int (npy_get_msb (length v))) [0..<length v]"

section \<open>The sort is correct, and stable on parts of at most 17\<close>












lemma length_heap_set [simp]: "length (heap_set a i x) = length a"
  by (simp add: heap_set_def)













section \<open>The analytics page\<close>

definition bind_result :: "'e + 'a \<Rightarrow> ('a \<Rightarrow> 'e + 'b) \<Rightarrow> 'e + 'b" where
  "bind_result x f = (case x of Inl e \<Rightarrow> Inl e | Inr v \<Rightarrow> f v)"

text \<open>\<open>df[c]\<close> and \<open>df[c] = values\<close>.\<close>

definition get_column :: "string \<Rightarrow> DataFrame \<Rightarrow> pd_error + cell list" where
  "get_column c df =
     (case index_of c (columns df) of
        None \<Rightarrow> Inl KeyError
      | Some j \<Rightarrow> Inr (column_of j (rows df)))"

definition set_column :: "string \<Rightarrow> cell list \<Rightarrow> DataFrame \<Rightarrow> DataFrame" where
  "set_column c vals df =
     (case index_of c (columns df) of
        None \<Rightarrow> \<lparr>columns = columns df @ [c], rows = map (\<lambda>(r, v). r @ [v]) (zip (rows df) vals)\<rparr>
      | Some j \<Rightarrow> df\<lparr>rows := map (\<lambda>(r, v). r[j := v]) (zip (rows df) vals)\<rparr>)"

text \<open>
  \<open>pd.to_datetime\<close> of a column: every cell has to be a text \<open>YYYY-MM-DD\<close> of a valid
  date. Other inputs either raise or are read in a format that is not modelled.
\<close>

definition to_datetime_cell :: "cell \<Rightarrow> cell option" where
  "to_datetime_cell c = (case c of StrV s \<Rightarrow> map_option TsV (parse_ymd s) | _ \<Rightarrow> None)"

definition to_datetime :: "cell list \<Rightarrow> pd_error + cell list" where
  "to_datetime col =
     (if list_all (\<lambda>c. to_datetime_cell c \<noteq> None) col
      then Inr (map (\<lambda>c. case to_datetime_cell c of Some t \<Rightarrow> t | None \<Rightarrow> NaN) col)
      else Inl NotModelled)"

definition is_ts :: "cell \<Rightarrow> bool" where
  "is_ts c = (case c of TsV d \<Rightarrow> True | _ \<Rightarrow> False)"

definition ts_key :: "cell \<Rightarrow> date" where
  "ts_key c = (case c of TsV d \<Rightarrow> d | _ \<Rightarrow> (0, 0, 0))"

text \<open>
  \<open>df.sort_values(c)\<close> for a column of timestamps: the rows in the order numpy's
  \<open>argsort\<close> gives for the timestamps. Dates are compared year first, then month, then
  day, which is the order of the timestamps.
\<close>

definition sort_values :: "string \<Rightarrow> DataFrame \<Rightarrow> pd_error + DataFrame" where
  "sort_values c df =
     bind_result (get_column c df) (\<lambda>col.
       if list_all is_ts col
       then Inr (df\<lparr>rows := map (\<lambda>i. rows df ! i) (npy_aquicksort (map ts_key col))\<rparr>)
       else Inl NotModelled)"

text \<open>\<open>Series.unique()\<close>: the values in the order of their first appearance.\<close>

fun unique_from :: "'a list \<Rightarrow> 'a list \<Rightarrow> 'a list" where
  "unique_from seen [] = []"
| "unique_from seen (x # xs) =
     (if List.member seen x then unique_from seen xs else x # unique_from (x # seen) xs)"

definition unique :: "'a list \<Rightarrow> 'a list" where
  "unique xs = unique_from [] xs"

text \<open>
  \<open>col.isin(values)\<close> and \<open>col == u\<close> give one truth value per row; \<open>df[mask]\<close> keeps the
  rows whose truth value is true. \<open>isin\<close> finds \<open>NaN\<close> in a list that holds \<open>NaN\<close>;
  \<open>==\<close> is false on \<open>NaN\<close>.
\<close>

definition isin :: "cell list \<Rightarrow> cell list \<Rightarrow> bool list" where
  "isin col vals = map (\<lambda>c. List.member vals c) col"

definition eq_mask :: "cell list \<Rightarrow> cell \<Rightarrow> bool list" where
  "eq_mask col u = map (\<lambda>c. c \<noteq> NaN \<and> c = u) col"

definition mask_rows :: "bool list \<Rightarrow> 'a list \<Rightarrow> 'a list" where
  "mask_rows m rs = map snd (filter fst (zip m rs))"

definition boolean_mask :: "bool list \<Rightarrow> DataFrame \<Rightarrow> DataFrame" where
  "boolean_mask m df = df\<lparr>rows := mask_rows m (rows df)\<rparr>"

text \<open>\<open>df[df['Name'].isin(selected_users)]\<close>.\<close>

definition filter_users :: "cell list \<Rightarrow> DataFrame \<Rightarrow> pd_error + DataFrame" where
  "filter_users selected_users df =
     bind_result (get_column ''Name'' df) (\<lambda>names.
       Inr (boolean_mask (isin names selected_users) df))"

text \<open>\<open>df[[c1, ..., cn]]\<close>.\<close>

definition select_columns :: "string list \<Rightarrow> DataFrame \<Rightarrow> pd_error + DataFrame" where
  "select_columns cs df =
     bind_result (sequence (map (\<lambda>c. get_column c df) cs)) (\<lambda>cols.
       Inr \<lparr>columns = cs, rows = rows_of_columns (length (rows df)) cols\<rparr>)"

text \<open>
  \<open>df.groupby('Name')['Scale']\<close>: for each name that is not \<open>NaN\<close>, the Scale values of
  its rows in row order. The aggregates are defined on integer columns; the mean is the
  exact quotient (the rounding of the floating point division is not modelled), and the
  order in which pandas lists the groups is not modelled: the result is the mapping from
  names to values.
\<close>

definition is_int :: "cell \<Rightarrow> bool" where
  "is_int c = (case c of IntV i \<Rightarrow> True | _ \<Rightarrow> False)"

definition int_val :: "cell \<Rightarrow> int" where
  "int_val c = (case c of IntV i \<Rightarrow> i | _ \<Rightarrow> 0)"

definition groupby_scale :: "DataFrame \<Rightarrow> pd_error + (cell \<Rightarrow> int list)" where
  "groupby_scale df =
     bind_result (get_column ''Name'' df) (\<lambda>names.
     bind_result (get_column ''Scale'' df) (\<lambda>scales.
       if list_all is_int scales
       then Inr (\<lambda>u. map int_val (mask_rows (eq_mask names u) scales))
       else Inl NotModelled))"

definition mean_of :: "int list \<Rightarrow> rat option" where
  "mean_of xs = (if xs = [] then None else Some (of_int (sum_list xs) / of_nat (length xs)))"

definition max_of :: "int list \<Rightarrow> int option" where
  "max_of xs = (case xs of [] \<Rightarrow> None | x # r \<Rightarrow> Some (fold max r x))"

definition aggregate_mean :: "DataFrame \<Rightarrow> pd_error + (cell \<Rightarrow> rat option)" where
  "aggregate_mean df = bind_result (groupby_scale df) (\<lambda>g. Inr (\<lambda>u. mean_of (g u)))"

definition aggregate_max :: "DataFrame \<Rightarrow> pd_error + (cell \<Rightarrow> int option)" where
  "aggregate_max df = bind_result (groupby_scale df) (\<lambda>g. Inr (\<lambda>u. max_of (g u)))"

text \<open>
  The line of one user in the chart: the Date and Scale of the rows of
  \<open>filtered_df[filtered_df['Name'] == user]\<close>.
\<close>

definition chart_series :: "DataFrame \<Rightarrow> cell \<Rightarrow> pd_error + (cell \<times> cell) list" where
  "chart_series filtered_df user =
     bind_result (get_column ''Name'' filtered_df) (\<lambda>names.
       let user_data = boolean_mask (eq_mask names user) filtered_df in
       bind_result (get_column ''Date'' user_data) (\<lambda>dates.
       bind_result (get_column ''Scale'' user_data) (\<lambda>scales.
         Inr (zip dates scales))))"

text \<open>
  What the user chose in the sidebar: all users, or one user of the select box; and
  whether the download button was pressed.
\<close>

datatype view_option = All_Users | Select_User cell

record dashboard =
  chart :: "(cell \<times> (cell \<times> cell) list) list"
  data_table :: DataFrame
  avg_rating :: "(cell \<Rightarrow> rat option) option"
  max_rating :: "(cell \<Rightarrow> int option) option"
  download :: "string option"

datatype page = Message message | Dashboard dashboard

definition df_empty :: "DataFrame \<Rightarrow> bool" where
  "df_empty df = (rows df = [] \<or> columns df = [])"

text \<open>
  The table the page works on: the loaded table with the Date column converted
  (\<open>df['Date'] = pd.to_datetime(df['Date'])\<close>) and then the rows sorted by it.
\<close>

definition convert_dates :: "DataFrame \<Rightarrow> pd_error + DataFrame" where
  "convert_dates df0 =
     bind_result (get_column ''Date'' df0) (\<lambda>dates.
     bind_result (to_datetime dates) (\<lambda>ts.
       Inr (set_column ''Date'' ts df0)))"

definition sorted_table :: "DataFrame \<Rightarrow> pd_error + DataFrame" where
  "sorted_table df0 = bind_result (convert_dates df0) (sort_values ''Date'')"

text \<open>
  The page below the sort: the sidebar choice, the filter, the chart, the table, the
  statistics and the download of the whole sorted table.
\<close>

definition render_dashboard :: "view_option \<Rightarrow> bool \<Rightarrow> DataFrame \<Rightarrow> pd_error + page" where
  "render_dashboard view download_pressed df =
     bind_result (get_column ''Name'' df) (\<lambda>names.
       let user_names = unique names;
           selected_users = (case view of All_Users \<Rightarrow> user_names | Select_User u \<Rightarrow> [u])
       in
       bind_result (filter_users selected_users df) (\<lambda>filtered_df.
       bind_result (sequence (map (\<lambda>u. bind_result (chart_series filtered_df u) (\<lambda>s. Inr (u, s)))
                      selected_users)) (\<lambda>lines.
       bind_result (select_columns schema filtered_df) (\<lambda>table.
       bind_result (if df_empty filtered_df then Inr None
                    else bind_result (aggregate_mean filtered_df) (\<lambda>m. Inr (Some m))) (\<lambda>avg.
       bind_result (if df_empty filtered_df then Inr None
                    else bind_result (aggregate_max filtered_df) (\<lambda>m. Inr (Some m))) (\<lambda>mx.
         Inr (Dashboard \<lparr>chart = lines, data_table = table, avg_rating = avg,
                max_rating = mx,
                download = (if download_pressed then Some (to_csv df) else None)\<rparr>)))))))"

definition analytics_page :: "view_option \<Rightarrow> bool \<Rightarrow> filesystem \<Rightarrow> pd_error + page" where
  "analytics_page view download_pressed fs =
     bind_result (load_data fs) (\<lambda>df0.
       if df_empty df0
       then Inr (Message (st_warning ''No data available. Please add ratings on the input page.''))
       else bind_result (sorted_table df0) (render_dashboard view download_pressed))"




definition shown_avg :: "pd_error + page \<Rightarrow> cell \<Rightarrow> rat option" where
  "shown_avg r u =
     (case r of Inr (Dashboard d) \<Rightarrow> (case avg_rating d of Some m \<Rightarrow> m u | None \<Rightarrow> None)
      | _ \<Rightarrow> None)"

definition shown_max :: "pd_error + page \<Rightarrow> cell \<Rightarrow> int option" where
  "shown_max r u =
     (case r of Inr (Dashboard d) \<Rightarrow> (case max_rating d of Some m \<Rightarrow> m u | None \<Rightarrow> None)
      | _ \<Rightarrow> None)"

text \<open>
  The table of the examples: A rated 5 on day 1 and 9 on day 2, B rated 3 on day 1;
  as the frame the page works on, and as the file it is loaded from.
\<close>

definition example_ratings :: DataFrame where
  "example_ratings = \<lparr>columns = schema,
     rows = [[StrV ''A'', TsV (2024, 1, 1), IntV 5, NaN],
             [StrV ''A'', TsV (2024, 1, 2), IntV 9, NaN],
             [StrV ''B'', TsV (2024, 1, 1), IntV 3, NaN]]\<rparr>"

definition example_file :: filesystem where
  "example_file = Some ''Name,Date,Scale,Note\<newline>A,2024-01-01,5,\<newline>A,2024-01-02,9,\<newline>B,2024-01-01,3,\<newline>''"

section \<open>Reading back what was written: the tokens\<close>


















section \<open>Reading back what was written: the values\<close>




































section \<open>The examples: aggregates and filter\<close>

lemma mask_rows_map: "mask_rows (map P xs) xs = filter P xs"
  by (induction xs) (simp_all add: mask_rows_def)

lemmas date_eval = to_datetime_def to_datetime_cell_def parse_ymd_def valid_date_def
  days_in_month_def leap_year_def digit_val_def

lemmas frame_eval = get_column_def set_column_def column_of_def schema_def

lemma bind_result_Inr: "bind_result (Inr v) f = f v"
  by (simp add: bind_result_def)

lemma bind_result_Inl: "bind_result (Inl e) f = Inl e"
  by (simp add: bind_result_def)

lemma analytics_page_sorted:
  assumes "load_data fs = Inr df0" "\<not> df_empty df0" "sorted_table df0 = Inr df"
  shows "analytics_page view dl fs = render_dashboard view dl df"
  using assms by (simp add: analytics_page_def bind_result_Inr)

lemma sorted_table_steps:
  assumes "convert_dates df0 = Inr dfc" "sort_values ''Date'' dfc = Inr df"
  shows "sorted_table df0 = Inr df"
  using assms by (simp add: sorted_table_def bind_result_Inr)

lemma example_file_loads:
  "load_data example_file = Inr \<lparr>columns = schema,
     rows = [[StrV ''A'', StrV ''2024-01-01'', IntV 5, NaN],
             [StrV ''A'', StrV ''2024-01-02'', IntV 9, NaN],
             [StrV ''B'', StrV ''2024-01-01'', IntV 3, NaN]]\<rparr>"
  by code_simp

lemma example_file_dates:
  "convert_dates \<lparr>columns = schema,
     rows = [[StrV ''A'', StrV ''2024-01-01'', IntV 5, NaN],
             [StrV ''A'', StrV ''2024-01-02'', IntV 9, NaN],
             [StrV ''B'', StrV ''2024-01-01'', IntV 3, NaN]]\<rparr>
   = Inr example_ratings"
  by (simp add: convert_dates_def bind_result_def frame_eval date_eval example_ratings_def)

lemma example_file_sorted:
  "sort_values ''Date'' example_ratings
   = Inr \<lparr>columns = schema,
     rows = [[StrV ''A'', TsV (2024, 1, 1), IntV 5, NaN],
             [StrV ''B'', TsV (2024, 1, 1), IntV 3, NaN],
             [StrV ''A'', TsV (2024, 1, 2), IntV 9, NaN]]\<rparr>"
  by code_simp

lemma example_page:
  "analytics_page view dl example_file = render_dashboard view dl \<lparr>columns = schema,
     rows = [[StrV ''A'', TsV (2024, 1, 1), IntV 5, NaN],
             [StrV ''B'', TsV (2024, 1, 1), IntV 3, NaN],
             [StrV ''A'', TsV (2024, 1, 2), IntV 9, NaN]]\<rparr>"
proof (rule analytics_page_sorted[OF example_file_loads])
  show "\<not> df_empty \<lparr>columns = schema,
     rows = [[StrV ''A'', StrV ''2024-01-01'', IntV 5, NaN],
             [StrV ''A'', StrV ''2024-01-02'', IntV 9, NaN],
             [StrV ''B'', StrV ''2024-01-01'', IntV 3, NaN]]\<rparr>"
    by (simp add: df_empty_def schema_def)
qed (rule sorted_table_steps[OF example_file_dates example_file_sorted])

lemma example_averages:
  "shown_avg (render_dashboard All_Users False \<lparr>columns = schema,
     rows = [[StrV ''A'', TsV (2024, 1, 1), IntV 5, NaN],
             [StrV ''B'', TsV (2024, 1, 1), IntV 3, NaN],
             [StrV ''A'', TsV (2024, 1, 2), IntV 9, NaN]]\<rparr>) (StrV ''A'') = Some 7"
  "shown_avg (render_dashboard All_Users False \<lparr>columns = schema,
     rows = [[StrV ''A'', TsV (2024, 1, 1), IntV 5, NaN],
             [StrV ''B'', TsV (2024, 1, 1), IntV 3, NaN],
             [StrV ''A'', TsV (2024, 1, 2), IntV 9, NaN]]\<rparr>) (StrV ''B'') = Some 3"
  "shown_max (render_dashboard All_Users False \<lparr>columns = schema,
     rows = [[StrV ''A'', TsV (2024, 1, 1), IntV 5, NaN],
             [StrV ''B'', TsV (2024, 1, 1), IntV 3, NaN],
             [StrV ''A'', TsV (2024, 1, 2), IntV 9, NaN]]\<rparr>) (StrV ''A'') = Some 9"
  "shown_max (render_dashboard All_Users False \<lparr>columns = schema,
     rows = [[StrV ''A'', TsV (2024, 1, 1), IntV 5, NaN],
             [StrV ''B'', TsV (2024, 1, 1), IntV 3, NaN],
             [StrV ''A'', TsV (2024, 1, 2), IntV 9, NaN]]\<rparr>) (StrV ''B'') = Some 3"
  by code_simp+

text \<open>
  C6. Over the records (A, day 1, 5), (A, day 2, 9), (B, day 1, 3) the mean of A is 7 and
  of B is 3, the maximum of A is 9 and of B is 3: for the aggregate functions on the
  frame, and for the statistics the page shows when that table is the persisted one.
\<close>

theorem aggregates_example:
  "bind_result (aggregate_mean example_ratings) (\<lambda>m. Inr (m (StrV ''A''), m (StrV ''B'')))
     = Inr (Some 7, Some 3)
   \<and> bind_result (aggregate_max example_ratings) (\<lambda>m. Inr (m (StrV ''A''), m (StrV ''B'')))
     = Inr (Some 9, Some 3)
   \<and> shown_avg (analytics_page All_Users False example_file) (StrV ''A'') = Some 7
   \<and> shown_avg (analytics_page All_Users False example_file) (StrV ''B'') = Some 3
   \<and> shown_max (analytics_page All_Users False example_file) (StrV ''A'') = Some 9
   \<and> shown_max (analytics_page All_Users False example_file) (StrV ''B'') = Some 3"
proof -
  have "bind_result (aggregate_mean example_ratings) (\<lambda>m. Inr (m (StrV ''A''), m (StrV ''B'')))
     = Inr (Some 7, Some 3)"
    by code_simp
  moreover have "bind_result (aggregate_max example_ratings) (\<lambda>m. Inr (m (StrV ''A''), m (StrV ''B'')))
     = Inr (Some 9, Some 3)"
    by code_simp
  ultimately show ?thesis
    by (simp only: example_page example_averages simp_thms)
qed

text \<open>
  C7. The filter keeps exactly the records whose Name is one of the given identities, in
  the order they have in the table; on the table of the examples with the one identity A
  it returns the two records of A in their order.
\<close>

theorem filter_users_subsequence:
  assumes "index_of ''Name'' (columns df) = Some j"
  shows "\<exists>fdf. filter_users ids df = Inr fdf \<and> columns fdf = columns df
           \<and> rows fdf = filter (\<lambda>r. r ! j \<in> set ids) (rows df)
           \<and> subseq (rows fdf) (rows df)"
  using assms
  by (simp add: filter_users_def bind_result_def get_column_def boolean_mask_def isin_def
      column_of_def mask_rows_map comp_def)

theorem filter_users_subsequence_witness:
  "filter_users [StrV ''A''] example_ratings
     = Inr \<lparr>columns = [''Name'', ''Date'', ''Scale'', ''Note''],
            rows = [[StrV ''A'', TsV (2024, 1, 1), IntV 5, NaN],
                    [StrV ''A'', TsV (2024, 1, 2), IntV 9, NaN]]\<rparr>"
proof -
  have idx: "index_of ''Name'' (columns example_ratings) = Some 0"
    by (simp add: example_ratings_def schema_def)
  from filter_users_subsequence[OF idx, of "[StrV ''A'']"] obtain fdf where
    f: "filter_users [StrV ''A''] example_ratings = Inr fdf" "columns fdf = columns example_ratings"
      "rows fdf = filter (\<lambda>r. r ! 0 \<in> set [StrV ''A'']) (rows example_ratings)"
    by blast
  have "fdf = \<lparr>columns = [''Name'', ''Date'', ''Scale'', ''Note''],
            rows = [[StrV ''A'', TsV (2024, 1, 1), IntV 5, NaN],
                    [StrV ''A'', TsV (2024, 1, 2), IntV 9, NaN]]\<rparr>"
    using f(2,3) by (simp add: example_ratings_def schema_def)
  then show ?thesis using f(1) by simp
qed

section \<open>Persisting and loading again\<close>








section \<open>The Scale of every persisted row\<close>



















section \<open>Dates as text\<close>
















section \<open>Appending, persisting and loading\<close>













section \<open>The analytics page: what is sorted and what is shown\<close>




lemma mask_rows_map_map: "mask_rows (map P (map f xs)) xs = filter (\<lambda>x. P (f x)) xs"
  using mask_rows_map[of "\<lambda>x. P (f x)" xs] by (simp add: comp_def)









section \<open>The chart lines\<close>














section \<open>The table, the statistics and the download\<close>









section \<open>The download and what loading it gives\<close>
























lemma example_reload:
  "load_data (Some ''Name,Date,Scale,Note\<newline>A,2024-01-01,5,\<newline>B,2024-01-01,3,\<newline>A,2024-01-02,9,\<newline>'')
   = Inr \<lparr>columns = schema,
     rows = [[StrV ''A'', StrV ''2024-01-01'', IntV 5, NaN],
             [StrV ''B'', StrV ''2024-01-01'', IntV 3, NaN],
             [StrV ''A'', StrV ''2024-01-02'', IntV 9, NaN]]\<rparr>"
  by code_simp











end
